theory Spec2Isabelle
  imports Main "HOL-Library.Multiset"
begin

section \<open>Data model\<close>

text \<open>
  The verification orchestrator of \<^verbatim>\<open>src/index.ts\<close>. The asynchronous functions are
  modelled for one request at a time: a promise that rejects is \<open>Inl\<close> of the thrown value,
  a promise that resolves is \<open>Inr\<close> of its value, and the outside world (resolver, session
  manager, remote servers, clock) is an explicit state that every effect takes and returns.
\<close>

text \<open>An entry of \<^verbatim>\<open>dns.MxRecord[]\<close>.\<close>

record MxRecord =
  priority :: int
  exchange :: string

text \<open>
  A thrown \<^verbatim>\<open>Error & { code?: string }\<close>: the optional \<^verbatim>\<open>code\<close> property and the message.
\<close>

datatype js_error = JsError (code: "string option") (message: string)

text \<open>
  What \<^verbatim>\<open>client.test\<close> resolves to: \<^verbatim>\<open>kind === 'greylist'\<close> carries \<^verbatim>\<open>timeout\<close> (seconds),
  every other kind carries \<^verbatim>\<open>answer\<close>.
\<close>

datatype test_result = Greylist (timeout: nat) | Answer (answer: bool)

text \<open>The optional second argument of \<^verbatim>\<open>serverAcceptsEmail\<close>; \<open>None\<close> is an absent property.\<close>

record options =
  senderDomain :: "string option"
  senderAddress :: "string option"

text \<open>
  The calls that leave the process, in the order they are made. The trace is written by
  the model only; the environment cannot read or change it.
\<close>

datatype 'c event =
    ResolveMx "string option"
  | WithClient string string
  | Test 'c string string
  | Sleep nat
  | Release 'c

text \<open>
  The collaborators, as functions on a world state \<open>'w\<close>; \<open>'c\<close> is the type of client
  sessions. \<open>resolveMx\<close> is \<^verbatim>\<open>util.promisify(dns.resolveMx)\<close>, whose argument is
  \<^verbatim>\<open>undefined\<close> (\<open>None\<close>) when the address has no second segment; \<open>acquire\<close> and \<open>release\<close>
  are the two halves of the session manager; \<open>client_test\<close> is \<^verbatim>\<open>client.test\<close>; \<open>pSleep\<close>
  takes milliseconds.
\<close>

record ('w, 'c) env =
  resolveMx :: "string option \<Rightarrow> 'w \<Rightarrow> (js_error + MxRecord list) \<times> 'w"
  os_hostname :: "'w \<Rightarrow> string"
  acquire :: "string \<Rightarrow> string \<Rightarrow> 'w \<Rightarrow> (js_error + 'c) \<times> 'w"
  release :: "'c \<Rightarrow> 'w \<Rightarrow> 'w"
  client_test :: "'c \<Rightarrow> string \<Rightarrow> string \<Rightarrow> 'w \<Rightarrow> (js_error + test_result) \<times> 'w"
  pSleep :: "nat \<Rightarrow> 'w \<Rightarrow> 'w"

type_synonym ('w, 'c) state = "'w \<times> 'c event list"

section \<open>Library functions of the runtime\<close>

text \<open>\<^verbatim>\<open>String.prototype.split\<close> with a one-character separator: never an empty array.\<close>

fun split_on :: "char \<Rightarrow> string \<Rightarrow> string list" where
  "split_on sep [] = [[]]"
| "split_on sep (c # cs) =
     (if c = sep then [] # split_on sep cs
      else (case split_on sep cs of
              [] \<Rightarrow> [[c]]
            | s # ss \<Rightarrow> (c # s) # ss))"

text \<open>Array indexing: \<^verbatim>\<open>undefined\<close> out of range.\<close>

definition js_index :: "'a list \<Rightarrow> nat \<Rightarrow> 'a option" where
  "js_index xs i = (if i < length xs then Some (xs ! i) else None)"

text \<open>
  \<^verbatim>\<open>a || b\<close> on an optional string: \<^verbatim>\<open>undefined\<close> and the empty string are both falsy.
\<close>

definition js_or :: "string option \<Rightarrow> string \<Rightarrow> string" where
  "js_or a b = (case a of None \<Rightarrow> b | Some s \<Rightarrow> if s = [] then b else s)"

text \<open>
  \<^verbatim>\<open>Array.prototype.sort\<close> with a comparator, which ECMAScript 2019 requires to be stable:
  an insertion sort that puts an element before the first one it does not compare
  greater than.
\<close>

fun js_insert :: "('a \<Rightarrow> 'a \<Rightarrow> int) \<Rightarrow> 'a \<Rightarrow> 'a list \<Rightarrow> 'a list" where
  "js_insert cmp x [] = [x]"
| "js_insert cmp x (y # ys) =
     (if cmp x y \<le> 0 then x # y # ys else y # js_insert cmp x ys)"

definition js_sort :: "('a \<Rightarrow> 'a \<Rightarrow> int) \<Rightarrow> 'a list \<Rightarrow> 'a list" where
  "js_sort cmp xs = foldr (js_insert cmp) xs []"

text \<open>\<^verbatim>\<open>pCatchIf(predicate, catcher)\<close>: the handler given to \<^verbatim>\<open>.catch\<close>.\<close>

definition pCatchIf :: "('e \<Rightarrow> bool) \<Rightarrow> ('e \<Rightarrow> 'a) \<Rightarrow> 'e \<Rightarrow> 'e + 'a" where
  "pCatchIf predicate catcher err = (if predicate err then Inr (catcher err) else Inl err)"

text \<open>
  \<^verbatim>\<open>pLimit(256)\<close> applied to a function and its argument. For one request at a time the
  limiter has free capacity and runs the function at once.
\<close>

definition getMailServersLimit :: "('a \<Rightarrow> 's \<Rightarrow> 'r) \<Rightarrow> 'a \<Rightarrow> 's \<Rightarrow> 'r" where
  "getMailServersLimit fn arg = fn arg"

section \<open>The session manager\<close>

text \<open>
  Modelled from the spec: \<^verbatim>\<open>Manager.withClient\<close> of \<^verbatim>\<open>./manager\<close>, which is not among the
  sources. The spec gives it as \<^verbatim>\<open>withSession(host, senderDomain, body)\<close>: the body
  receives a live session and its return value or error is forwarded after the session is
  released; a session that cannot be acquired is a failure of the call.
\<close>

definition withClient ::
  "('w, 'c) env \<Rightarrow> string \<Rightarrow> string \<Rightarrow>
   ('c \<Rightarrow> ('w, 'c) state \<Rightarrow> (js_error + 'a) \<times> ('w, 'c) state) \<Rightarrow>
   ('w, 'c) state \<Rightarrow> (js_error + 'a) \<times> ('w, 'c) state" where
  "withClient e server sd body st =
     (case st of (w, tr) \<Rightarrow>
        (case acquire e server sd w of
           (Inl err, w1) \<Rightarrow> (Inl err, (w1, tr @ [WithClient server sd]))
         | (Inr client, w1) \<Rightarrow>
             (case body client (w1, tr @ [WithClient server sd]) of
                (r, (w2, tr2)) \<Rightarrow> (r, (release e client w2, tr2 @ [Release client])))))"

section \<open>The orchestrator\<close>

definition handleResolveMxErrors :: "js_error \<Rightarrow> js_error + MxRecord list" where
  "handleResolveMxErrors =
     pCatchIf (\<lambda>err. code err = Some ''ENOTFOUND'' \<or> code err = Some ''ENODATA'')
              (\<lambda>_. [])"

definition getMailServers ::
  "('w, 'c) env \<Rightarrow> string option \<Rightarrow> ('w, 'c) state \<Rightarrow> (js_error + string list) \<times> ('w, 'c) state" where
  "getMailServers e hostname st =
     (case st of (w, tr) \<Rightarrow>
        (case resolveMx e hostname w of (r, w1) \<Rightarrow>
           ((case (case r of Inl err \<Rightarrow> handleResolveMxErrors err | Inr recs \<Rightarrow> Inr recs) of
               Inl err \<Rightarrow> Inl err
             | Inr mxRecords \<Rightarrow>
                 Inr (map exchange
                        (js_sort (\<lambda>lhs rhs. priority lhs - priority rhs) mxRecords))),
            (w1, tr @ [ResolveMx hostname]))))"

function testServer ::
  "('w, 'c) env \<Rightarrow> 'c \<Rightarrow> string \<Rightarrow> string \<Rightarrow> bool \<Rightarrow> ('w, 'c) state \<Rightarrow>
   (js_error + bool) \<times> ('w, 'c) state" where
  "testServer e client email sa handleGraylisting (w, tr) =
     (case client_test e client email sa w of
        (Inl err, w1) \<Rightarrow> (Inl err, (w1, tr @ [Test client email sa]))
      | (Inr result, w1) \<Rightarrow>
          (case result of
             Greylist t \<Rightarrow>
               if \<not> handleGraylisting
               then (Inl (JsError None ''Server applied greylisting''),
                     (w1, tr @ [Test client email sa]))
               else testServer e client email sa False
                      (pSleep e (t * 1000) w1,
                       tr @ [Test client email sa, Sleep (t * 1000)])
           | Answer a \<Rightarrow> (Inr a, (w1, tr @ [Test client email sa]))))"
  by pat_completeness auto
termination
  by (relation "measure (\<lambda>(e, client, email, sa, handleGraylisting, st).
                           if handleGraylisting then 1 else 0)") auto

declare testServer.simps [simp del]

text \<open>The body of the \<^verbatim>\<open>try\<close> block: one server's attempt.\<close>

definition attempt ::
  "('w, 'c) env \<Rightarrow> string \<Rightarrow> string \<Rightarrow> string \<Rightarrow> string \<Rightarrow> ('w, 'c) state \<Rightarrow>
   (js_error + bool) \<times> ('w, 'c) state" where
  "attempt e email sd sa server st =
     withClient e server sd (\<lambda>client. testServer e client email sa True) st"

text \<open>
  The \<^verbatim>\<open>for\<close> loop and the \<^verbatim>\<open>throw lastError\<close> after it; \<open>None\<close> is \<^verbatim>\<open>null\<close>.
\<close>

fun try_servers ::
  "('w, 'c) env \<Rightarrow> string \<Rightarrow> string \<Rightarrow> string \<Rightarrow> string list \<Rightarrow> js_error option \<Rightarrow>
   ('w, 'c) state \<Rightarrow> (js_error option + bool) \<times> ('w, 'c) state" where
  "try_servers e email sd sa [] lastError st = (Inl lastError, st)"
| "try_servers e email sd sa (server # rest) lastError st =
     (case attempt e email sd sa server st of
        (Inr b, st') \<Rightarrow> (Inr b, st')
      | (Inl err, st') \<Rightarrow> try_servers e email sd sa rest (Some err) st')"

definition hostname_of :: "string \<Rightarrow> string option" where
  "hostname_of email = js_index (split_on CHR ''@'' email) 1"

definition serverAcceptsEmail ::
  "('w, 'c) env \<Rightarrow> string \<Rightarrow> options \<Rightarrow> ('w, 'c) state \<Rightarrow>
   (js_error option + bool) \<times> ('w, 'c) state" where
  "serverAcceptsEmail e email opts st =
     (case getMailServersLimit (getMailServers e) (hostname_of email) st of
        (Inl err, st1) \<Rightarrow> (Inl (Some err), st1)
      | (Inr servers, st1) \<Rightarrow>
          if length servers = 0 then (Inr False, st1)
          else
            (let sd = js_or (senderDomain opts) (os_hostname e (fst st1));
                 sa = js_or (senderAddress opts) (''test@'' @ sd)
             in try_servers e email sd sa servers None st1))"

section \<open>Observing a run\<close>

text \<open>The servers for which \<^verbatim>\<open>withClient\<close> was called, in the order of the calls.\<close>

fun contacted :: "'c event list \<Rightarrow> string list" where
  "contacted [] = []"
| "contacted (WithClient server sd # evs) = server # contacted evs"
| "contacted (ev # evs) = contacted evs"


text \<open>The state after the attempts of the given servers, made one after the other.\<close>

fun after_attempts ::
  "('w, 'c) env \<Rightarrow> string \<Rightarrow> string \<Rightarrow> string \<Rightarrow> string list \<Rightarrow> ('w, 'c) state \<Rightarrow>
   ('w, 'c) state" where
  "after_attempts e email sd sa [] st = st"
| "after_attempts e email sd sa (server # rest) st =
     after_attempts e email sd sa rest (snd (attempt e email sd sa server st))"

text \<open>Every one of these attempts, made one after the other, throws.\<close>

fun all_fail ::
  "('w, 'c) env \<Rightarrow> string \<Rightarrow> string \<Rightarrow> string \<Rightarrow> string list \<Rightarrow> ('w, 'c) state \<Rightarrow> bool" where
  "all_fail e email sd sa [] st = True"
| "all_fail e email sd sa (server # rest) st =
     (isl (fst (attempt e email sd sa server st)) \<and>
      all_fail e email sd sa rest (snd (attempt e email sd sa server st)))"

text \<open>
  Every connection in the events claims the sender domain \<open>sd\<close>, and every probe is for
  \<open>email\<close> with the sender address \<open>sa\<close>.
\<close>

definition uses_sender :: "string \<Rightarrow> string \<Rightarrow> string \<Rightarrow> 'c event list \<Rightarrow> bool" where
  "uses_sender sd email sa evs =
     list_all (\<lambda>ev. case ev of
                      WithClient server d \<Rightarrow> d = sd
                    | Test c m a \<Rightarrow> m = email \<and> a = sa
                    | _ \<Rightarrow> True) evs"

section \<open>A test environment\<close>

text \<open>
  A small world to run the orchestrator in. The world state is a clock in milliseconds and
  a client is named by its server. \<^verbatim>\<open>example.org\<close> has four exchangers: \<^verbatim>\<open>down\<close> refuses
  connections, \<^verbatim>\<open>grey\<close> greylists for five seconds and then accepts, \<^verbatim>\<open>mx2\<close> and \<^verbatim>\<open>mx3\<close>
  reject. \<^verbatim>\<open>dead.example\<close> has \<^verbatim>\<open>stubborn\<close>, which greylists for ever, and \<^verbatim>\<open>down\<close>.
  \<^verbatim>\<open>twice.example\<close> lists \<^verbatim>\<open>stubborn\<close> under two priorities.
  \<^verbatim>\<open>nomail.example\<close> does not exist, and the resolver refuses an undefined name.
\<close>

definition test_resolveMx :: "string option \<Rightarrow> nat \<Rightarrow> (js_error + MxRecord list) \<times> nat" where
  "test_resolveMx hostname w =
     (if hostname = Some ''example.org''
      then Inr [\<lparr>priority = 20, exchange = ''mx2''\<rparr>, \<lparr>priority = 10, exchange = ''grey''\<rparr>,
                \<lparr>priority = 20, exchange = ''mx3''\<rparr>, \<lparr>priority = 5, exchange = ''down''\<rparr>]
      else if hostname = Some ''dead.example''
      then Inr [\<lparr>priority = 10, exchange = ''stubborn''\<rparr>, \<lparr>priority = 20, exchange = ''down''\<rparr>]
      else if hostname = Some ''twice.example''
      then Inr [\<lparr>priority = 10, exchange = ''stubborn''\<rparr>,
                \<lparr>priority = 20, exchange = ''stubborn''\<rparr>]
      else if hostname = Some ''nomail.example''
      then Inl (JsError (Some ''ENOTFOUND'') ''queryMx ENOTFOUND nomail.example'')
      else if hostname = None
      then Inl (JsError (Some ''ERR_INVALID_ARG_TYPE'') ''The name argument must be of type string'')
      else Inl (JsError (Some ''ESERVFAIL'') ''queryMx ESERVFAIL''),
      w)"

definition test_acquire :: "string \<Rightarrow> string \<Rightarrow> nat \<Rightarrow> (js_error + string) \<times> nat" where
  "test_acquire server sd w =
     (if server = ''down'' then Inl (JsError (Some ''ECONNREFUSED'') ''connect ECONNREFUSED'')
      else Inr server,
      w)"

definition test_client_test ::
  "string \<Rightarrow> string \<Rightarrow> string \<Rightarrow> nat \<Rightarrow> (js_error + test_result) \<times> nat" where
  "test_client_test client email sa w =
     (if client = ''grey'' then (if w < 5000 then Inr (Greylist 5) else Inr (Answer True))
      else if client = ''stubborn'' then Inr (Greylist 300)
      else Inr (Answer False),
      w)"

definition test_env :: "(nat, string) env" where
  "test_env =
     \<lparr>resolveMx = test_resolveMx,
      os_hostname = (\<lambda>w. ''localhost''),
      acquire = test_acquire,
      release = (\<lambda>client w. w),
      client_test = test_client_test,
      pSleep = (\<lambda>ms w. w + ms)\<rparr>"

definition no_options :: options where
  "no_options = \<lparr>senderDomain = None, senderAddress = None\<rparr>"

section \<open>Unfolding a run\<close>

lemmas run_defs =
  serverAcceptsEmail_def getMailServersLimit_def hostname_of_def js_index_def
  getMailServers_def handleResolveMxErrors_def pCatchIf_def js_sort_def js_or_def
  attempt_def withClient_def Let_def

lemmas test_defs =
  test_env_def test_resolveMx_def test_acquire_def test_client_test_def no_options_def

section \<open>Exchanger lookup\<close>

lemma js_insert_priority:
  "js_insert (\<lambda>lhs rhs. priority lhs - priority rhs) x ys = insort_key priority x ys"
  by (induction ys) auto

lemma js_sort_priority:
  "js_sort (\<lambda>lhs rhs. priority lhs - priority rhs) xs = sort_key priority xs"
  unfolding js_sort_def sort_key_def
  by (induction xs) (simp_all add: js_insert_priority)

text \<open>
  C7. When the lookup returns records, \<open>getMailServers\<close> returns the \<open>exchange\<close> names
  of a rearrangement of exactly these records that is ascending in \<open>priority\<close> and keeps
  records of equal priority in the order the lookup gave them; the priorities are not
  part of the result.
\<close>

theorem getMailServers_sorted_hostnames:
  assumes "resolveMx e hostname w = (Inr recs, w1)"
  shows "\<exists>srt. getMailServers e hostname (w, tr) =
                 (Inr (map exchange srt), (w1, tr @ [ResolveMx hostname]))
             \<and> mset srt = mset recs
             \<and> sorted (map priority srt)
             \<and> (\<forall>p. filter (\<lambda>r. priority r = p) srt = filter (\<lambda>r. priority r = p) recs)"
proof (intro exI conjI)
  show "getMailServers e hostname (w, tr) =
          (Inr (map exchange (sort_key priority recs)), (w1, tr @ [ResolveMx hostname]))"
    using assms by (simp add: getMailServers_def js_sort_priority)
  show "mset (sort_key priority recs) = mset recs" by simp
  show "sorted (map priority (sort_key priority recs))" by simp
  show "\<forall>p. filter (\<lambda>r. priority r = p) (sort_key priority recs) =
            filter (\<lambda>r. priority r = p) recs"
    by (simp add: sort_key_stable)
qed

theorem getMailServers_sorted_hostnames_witness:
  "resolveMx test_env (Some ''example.org'') 0 =
     (Inr [\<lparr>priority = 20, exchange = ''mx2''\<rparr>, \<lparr>priority = 10, exchange = ''grey''\<rparr>,
           \<lparr>priority = 20, exchange = ''mx3''\<rparr>, \<lparr>priority = 5, exchange = ''down''\<rparr>], 0)
   \<and> (\<exists>srt. getMailServers test_env (Some ''example.org'') (0, []) =
               (Inr (map exchange srt), (0, [] @ [ResolveMx (Some ''example.org'')]))
           \<and> mset srt =
               mset [\<lparr>priority = 20, exchange = ''mx2''\<rparr>, \<lparr>priority = 10, exchange = ''grey''\<rparr>,
                     \<lparr>priority = 20, exchange = ''mx3''\<rparr>, \<lparr>priority = 5, exchange = ''down''\<rparr>]
           \<and> sorted (map priority srt)
           \<and> (\<forall>p. filter (\<lambda>r. priority r = p) srt =
                    filter (\<lambda>r. priority r = p)
                      [\<lparr>priority = 20, exchange = ''mx2''\<rparr>, \<lparr>priority = 10, exchange = ''grey''\<rparr>,
                       \<lparr>priority = 20, exchange = ''mx3''\<rparr>, \<lparr>priority = 5, exchange = ''down''\<rparr>]))
   \<and> getMailServers test_env (Some ''example.org'') (0, []) =
       (Inr [''down'', ''grey'', ''mx2'', ''mx3''], (0, [ResolveMx (Some ''example.org'')]))"
proof (intro conjI)
  show h: "resolveMx test_env (Some ''example.org'') 0 =
     (Inr [\<lparr>priority = 20, exchange = ''mx2''\<rparr>, \<lparr>priority = 10, exchange = ''grey''\<rparr>,
           \<lparr>priority = 20, exchange = ''mx3''\<rparr>, \<lparr>priority = 5, exchange = ''down''\<rparr>], 0)"
    by (simp add: test_defs)
  show "\<exists>srt. getMailServers test_env (Some ''example.org'') (0, []) =
               (Inr (map exchange srt), (0, [] @ [ResolveMx (Some ''example.org'')]))
           \<and> mset srt =
               mset [\<lparr>priority = 20, exchange = ''mx2''\<rparr>, \<lparr>priority = 10, exchange = ''grey''\<rparr>,
                     \<lparr>priority = 20, exchange = ''mx3''\<rparr>, \<lparr>priority = 5, exchange = ''down''\<rparr>]
           \<and> sorted (map priority srt)
           \<and> (\<forall>p. filter (\<lambda>r. priority r = p) srt =
                    filter (\<lambda>r. priority r = p)
                      [\<lparr>priority = 20, exchange = ''mx2''\<rparr>, \<lparr>priority = 10, exchange = ''grey''\<rparr>,
                       \<lparr>priority = 20, exchange = ''mx3''\<rparr>, \<lparr>priority = 5, exchange = ''down''\<rparr>])"
    by (rule getMailServers_sorted_hostnames [OF h])
  show "getMailServers test_env (Some ''example.org'') (0, []) =
       (Inr [''down'', ''grey'', ''mx2'', ''mx3''], (0, [ResolveMx (Some ''example.org'')]))"
    by (simp add: run_defs test_defs)
qed

section \<open>One attempt\<close>

lemma testServer_disabled:
  "testServer e c email sa False (w, tr) =
     (case client_test e c email sa w of
        (Inl err, w1) \<Rightarrow> (Inl err, (w1, tr @ [Test c email sa]))
      | (Inr (Greylist t), w1) \<Rightarrow>
          (Inl (JsError None ''Server applied greylisting''), (w1, tr @ [Test c email sa]))
      | (Inr (Answer a), w1) \<Rightarrow> (Inr a, (w1, tr @ [Test c email sa])))"
  by (simp add: testServer.simps split: prod.splits sum.splits test_result.splits)

lemma testServer_disabled_events:
  "\<exists>r w'. testServer e c email sa False (w, tr) = (r, (w', tr @ [Test c email sa]))"
  by (simp add: testServer_disabled split: prod.splits sum.splits test_result.splits)

lemma testServer_events:
  "\<exists>r w' evs. testServer e c email sa hg (w, tr) = (r, (w', tr @ evs))
     \<and> (evs = [Test c email sa]
        \<or> (hg \<and> (\<exists>t. evs = [Test c email sa, Sleep (t * 1000), Test c email sa])))"
proof (cases "client_test e c email sa w")
  case (Pair r w1)
  show ?thesis
  proof (cases r)
    case (Inl err)
    with Pair show ?thesis by (simp add: testServer.simps)
  next
    case (Inr result)
    show ?thesis
    proof (cases result)
      case (Answer a)
      with Pair Inr show ?thesis by (simp add: testServer.simps)
    next
      case (Greylist t)
      show ?thesis
      proof (cases hg)
        case False
        with Pair Inr Greylist show ?thesis by (simp add: testServer.simps)
      next
        case True
        obtain r2 w2 where second:
          "testServer e c email sa False
             (pSleep e (t * 1000) w1, tr @ [Test c email sa, Sleep (t * 1000)]) =
           (r2, (w2, (tr @ [Test c email sa, Sleep (t * 1000)]) @ [Test c email sa]))"
          using testServer_disabled_events
                  [of e c email sa "pSleep e (t * 1000) w1" "tr @ [Test c email sa, Sleep (t * 1000)]"]
          by blast
        have "testServer e c email sa hg (w, tr) =
                (r2, (w2, tr @ [Test c email sa, Sleep (t * 1000), Test c email sa]))"
          using Pair Inr Greylist True second by (simp add: testServer.simps [of e c email sa True])
        with True show ?thesis by blast
      qed
    qed
  qed
qed

lemma contacted_append: "contacted (xs @ ys) = contacted xs @ contacted ys"
  by (induction xs rule: contacted.induct) simp_all

lemma attempt_events:
  "\<exists>r w' evs. attempt e email sd sa server (w, tr) = (r, (w', tr @ WithClient server sd # evs))
     \<and> contacted evs = [] \<and> uses_sender sd email sa evs"
proof (cases "acquire e server sd w")
  case (Pair a w1)
  show ?thesis
  proof (cases a)
    case (Inl err)
    with Pair show ?thesis by (simp add: attempt_def withClient_def uses_sender_def)
  next
    case (Inr c)
    obtain r w2 evs where body:
      "testServer e c email sa True (w1, tr @ [WithClient server sd]) =
         (r, (w2, (tr @ [WithClient server sd]) @ evs))"
      and shape: "evs = [Test c email sa]
                  \<or> (\<exists>t. evs = [Test c email sa, Sleep (t * 1000), Test c email sa])"
      using testServer_events [of e c email sa True w1 "tr @ [WithClient server sd]"] by blast
    have "attempt e email sd sa server (w, tr) =
            (r, (release e c w2, tr @ WithClient server sd # (evs @ [Release c])))"
      using Pair Inr body by (simp add: attempt_def withClient_def)
    moreover have "contacted (evs @ [Release c]) = []"
      using shape by auto
    moreover have "uses_sender sd email sa (evs @ [Release c])"
      using shape by (auto simp: uses_sender_def)
    ultimately show ?thesis by blast
  qed
qed


lemma attempt_contacted:
  "contacted (snd (snd (attempt e email sd sa server st))) = contacted (snd st) @ [server]"
proof -
  obtain w tr where st: "st = (w, tr)" by (cases st)
  from attempt_events [of e email sd sa server w tr] st
  show ?thesis by (auto simp: contacted_append)
qed

section \<open>The loop over the servers\<close>

lemma after_attempts_contacted:
  "contacted (snd (after_attempts e email sd sa hs st)) = contacted (snd st) @ hs"
  by (induction hs arbitrary: st) (simp_all add: attempt_contacted)

lemma try_servers_prefix:
  assumes "all_fail e email sd sa pre st"
    and "attempt e email sd sa server (after_attempts e email sd sa pre st) = (r, st')"
  shows "try_servers e email sd sa (pre @ server # post) lastError st =
           (case r of Inr b \<Rightarrow> (Inr b, st')
                    | Inl err \<Rightarrow> try_servers e email sd sa post (Some err) st')"
  using assms
proof (induction pre arbitrary: st lastError)
  case Nil
  then show ?case by (simp split: sum.splits)
next
  case (Cons p ps)
  obtain a st0 where first: "attempt e email sd sa p st = (a, st0)"
    by (cases "attempt e email sd sa p st")
  with Cons.prems(1) obtain e0 where a: "a = Inl e0"
    by (cases a) simp_all
  have "try_servers e email sd sa ((p # ps) @ server # post) lastError st =
          try_servers e email sd sa (ps @ server # post) (Some e0) st0"
    using first a by simp
  also have "\<dots> = (case r of Inr b \<Rightarrow> (Inr b, st')
                         | Inl err \<Rightarrow> try_servers e email sd sa post (Some err) st')"
    using Cons.IH [of st0 "Some e0"] Cons.prems first by simp
  finally show ?case .
qed

lemma try_servers_events:
  "\<exists>r w' evs. try_servers e email sd sa servers lastError (w, tr) = (r, (w', tr @ evs))
     \<and> uses_sender sd email sa evs
     \<and> (servers \<noteq> [] \<longrightarrow> (\<exists>evs'. evs = WithClient (hd servers) sd # evs'))"
proof (induction servers arbitrary: lastError w tr)
  case Nil
  show ?case by (simp add: uses_sender_def)
next
  case (Cons server rest)
  obtain a w1 evs1 where first:
    "attempt e email sd sa server (w, tr) = (a, (w1, tr @ WithClient server sd # evs1))"
    and ok1: "uses_sender sd email sa evs1"
    using attempt_events [of e email sd sa server w tr] by blast
  show ?case
  proof (cases a)
    case (Inr b)
    have "uses_sender sd email sa (WithClient server sd # evs1)"
      using ok1 by (simp add: uses_sender_def)
    with first Inr show ?thesis by simp
  next
    case (Inl err)
    obtain r w2 evs2 where rest:
      "try_servers e email sd sa rest (Some err) (w1, tr @ WithClient server sd # evs1) =
         (r, (w2, (tr @ WithClient server sd # evs1) @ evs2))"
      and ok2: "uses_sender sd email sa evs2"
      using Cons.IH [of "Some err" w1 "tr @ WithClient server sd # evs1"] by blast
    have "try_servers e email sd sa (server # rest) lastError (w, tr) =
            (r, (w2, tr @ WithClient server sd # (evs1 @ evs2)))"
      using first Inl rest by simp
    moreover have "uses_sender sd email sa (WithClient server sd # (evs1 @ evs2))"
      using ok1 ok2 by (simp add: uses_sender_def)
    ultimately show ?thesis by auto
  qed
qed

lemma getMailServers_trace:
  "getMailServers e hostname (w, tr) = (r, st1) \<Longrightarrow> snd st1 = tr @ [ResolveMx hostname]"
  by (auto simp: getMailServers_def split: prod.splits)

section \<open>Greylisting\<close>

text \<open>
  C2. When the prober answers with a greylisting of \<open>t\<close> seconds and greylist handling is
  enabled, \<open>testServer\<close> sleeps for \<open>t * 1000\<close> milliseconds and then is \<open>testServer\<close> on the
  same client, address and sender with greylist handling disabled: it returns whatever
  that second call returns.
\<close>

theorem testServer_greylist_retry:
  assumes "client_test e c email sa w = (Inr (Greylist t), w1)"
  shows "testServer e c email sa True (w, tr) =
           testServer e c email sa False
             (pSleep e (t * 1000) w1, tr @ [Test c email sa, Sleep (t * 1000)])"
  using assms by (simp add: testServer.simps [of e c email sa True])

theorem testServer_greylist_retry_witness:
  "client_test test_env ''grey'' ''a@example.org'' ''test@localhost'' 0 = (Inr (Greylist 5), 0)
   \<and> testServer test_env ''grey'' ''a@example.org'' ''test@localhost'' True (0, []) =
       testServer test_env ''grey'' ''a@example.org'' ''test@localhost'' False
         (pSleep test_env (5 * 1000) 0,
          [] @ [Test ''grey'' ''a@example.org'' ''test@localhost'', Sleep (5 * 1000)])
   \<and> testServer test_env ''grey'' ''a@example.org'' ''test@localhost'' True (0, []) =
       (Inr True, (5000, [Test ''grey'' ''a@example.org'' ''test@localhost'', Sleep 5000,
                          Test ''grey'' ''a@example.org'' ''test@localhost'']))"
proof (intro conjI)
  show h: "client_test test_env ''grey'' ''a@example.org'' ''test@localhost'' 0 =
             (Inr (Greylist 5), 0)"
    by (simp add: test_defs)
  show "testServer test_env ''grey'' ''a@example.org'' ''test@localhost'' True (0, []) =
       testServer test_env ''grey'' ''a@example.org'' ''test@localhost'' False
         (pSleep test_env (5 * 1000) 0,
          [] @ [Test ''grey'' ''a@example.org'' ''test@localhost'', Sleep (5 * 1000)])"
    by (rule testServer_greylist_retry [OF h])
  show "testServer test_env ''grey'' ''a@example.org'' ''test@localhost'' True (0, []) =
       (Inr True, (5000, [Test ''grey'' ''a@example.org'' ''test@localhost'', Sleep 5000,
                          Test ''grey'' ''a@example.org'' ''test@localhost'']))"
    by (simp add: testServer.simps test_defs)
qed




section \<open>The verdict of a request\<close>

lemma serverAcceptsEmail_loop:
  assumes "getMailServers e (hostname_of email) st = (Inr servers, st1)"
    and "servers \<noteq> []"
  shows "serverAcceptsEmail e email opts st =
           try_servers e email
             (js_or (senderDomain opts) (os_hostname e (fst st1)))
             (js_or (senderAddress opts)
                (''test@'' @ js_or (senderDomain opts) (os_hostname e (fst st1))))
             servers None st1"
  using assms by (simp add: serverAcceptsEmail_def getMailServersLimit_def Let_def)

lemma getMailServers_contacted:
  assumes "getMailServers e hostname st = (r, st1)"
  shows "contacted (snd st1) = contacted (snd st)"
proof -
  obtain w tr where st: "st = (w, tr)" by (cases st)
  with assms have "snd st1 = tr @ [ResolveMx hostname]"
    by (simp add: getMailServers_trace)
  with st show ?thesis by (simp add: contacted_append)
qed

text \<open>
  C1. Let the lookup return a non-empty list of servers, and let \<open>server\<close> be the first of
  them, in the order of the list, whose attempt does not throw: the attempts of the
  servers \<open>pre\<close> before it, made one after the other, all throw, and its own attempt,
  made after those, returns the verdict \<open>b\<close>. Then \<open>serverAcceptsEmail\<close> returns \<open>b\<close> in the
  state that attempt left, and the servers contacted by the request are exactly \<open>pre\<close>
  followed by \<open>server\<close>, in this order: none of the servers \<open>post\<close> is contacted.
\<close>

theorem serverAcceptsEmail_first_verdict:
  assumes "getMailServers e (hostname_of email) st = (Inr servers, st1)"
    and "servers = pre @ server # post"
    and "sd = js_or (senderDomain opts) (os_hostname e (fst st1))"
    and "sa = js_or (senderAddress opts) (''test@'' @ sd)"
    and "all_fail e email sd sa pre st1"
    and "attempt e email sd sa server (after_attempts e email sd sa pre st1) = (Inr b, st')"
  shows "serverAcceptsEmail e email opts st = (Inr b, st')
       \<and> contacted (snd st') = contacted (snd st) @ pre @ [server]"
proof
  have "servers \<noteq> []" using assms(2) by simp
  then have "serverAcceptsEmail e email opts st = try_servers e email sd sa servers None st1"
    using serverAcceptsEmail_loop [OF assms(1)] assms(3,4) by simp
  also have "\<dots> = (Inr b, st')"
    using try_servers_prefix [OF assms(5,6), of post None] assms(2) by simp
  finally show "serverAcceptsEmail e email opts st = (Inr b, st')" .
  have "contacted (snd st') =
          contacted (snd (after_attempts e email sd sa pre st1)) @ [server]"
    using attempt_contacted [of e email sd sa server "after_attempts e email sd sa pre st1"]
          assms(6) by simp
  also have "\<dots> = contacted (snd st1) @ pre @ [server]"
    by (simp add: after_attempts_contacted)
  finally show "contacted (snd st') = contacted (snd st) @ pre @ [server]"
    using getMailServers_contacted [OF assms(1)] by simp
qed

theorem serverAcceptsEmail_first_verdict_witness:
  "getMailServers test_env (hostname_of ''a@example.org'') (0, []) =
     (Inr [''down'', ''grey'', ''mx2'', ''mx3''], (0, [ResolveMx (Some ''example.org'')]))
   \<and> all_fail test_env ''a@example.org'' ''localhost'' ''test@localhost'' [''down'']
       (0, [ResolveMx (Some ''example.org'')])
   \<and> attempt test_env ''a@example.org'' ''localhost'' ''test@localhost'' ''grey''
       (after_attempts test_env ''a@example.org'' ''localhost'' ''test@localhost'' [''down'']
          (0, [ResolveMx (Some ''example.org'')])) =
       (Inr True,
        (5000, [ResolveMx (Some ''example.org''), WithClient ''down'' ''localhost'',
                WithClient ''grey'' ''localhost'',
                Test ''grey'' ''a@example.org'' ''test@localhost'', Sleep 5000,
                Test ''grey'' ''a@example.org'' ''test@localhost'', Release ''grey'']))
   \<and> serverAcceptsEmail test_env ''a@example.org'' no_options (0, []) =
       (Inr True,
        (5000, [ResolveMx (Some ''example.org''), WithClient ''down'' ''localhost'',
                WithClient ''grey'' ''localhost'',
                Test ''grey'' ''a@example.org'' ''test@localhost'', Sleep 5000,
                Test ''grey'' ''a@example.org'' ''test@localhost'', Release ''grey'']))
   \<and> contacted [ResolveMx (Some ''example.org''), WithClient ''down'' ''localhost'',
                WithClient ''grey'' ''localhost'',
                Test ''grey'' ''a@example.org'' ''test@localhost'', Sleep 5000,
                Test ''grey'' ''a@example.org'' ''test@localhost'', Release ''grey''] =
       [''down'', ''grey'']"
proof -
  have h1: "getMailServers test_env (hostname_of ''a@example.org'') (0, []) =
     (Inr [''down'', ''grey'', ''mx2'', ''mx3''], (0, [ResolveMx (Some ''example.org'')]))"
    by (simp add: run_defs test_defs)
  have h2: "[''down'', ''grey'', ''mx2'', ''mx3''] = [''down''] @ ''grey'' # [''mx2'', ''mx3'']"
    by simp
  have h3: "''localhost'' =
              js_or (senderDomain no_options)
                (os_hostname test_env (fst (0::nat, [ResolveMx (Some ''example.org'') :: string event])))"
    by (simp add: js_or_def test_defs)
  have h4: "''test@localhost'' = js_or (senderAddress no_options) (''test@'' @ ''localhost'')"
    by (simp add: js_or_def test_defs)
  have h5: "all_fail test_env ''a@example.org'' ''localhost'' ''test@localhost'' [''down'']
       (0, [ResolveMx (Some ''example.org'')])"
    by (simp add: run_defs test_defs)
  have h6: "attempt test_env ''a@example.org'' ''localhost'' ''test@localhost'' ''grey''
       (after_attempts test_env ''a@example.org'' ''localhost'' ''test@localhost'' [''down'']
          (0, [ResolveMx (Some ''example.org'')])) =
       (Inr True,
        (5000, [ResolveMx (Some ''example.org''), WithClient ''down'' ''localhost'',
                WithClient ''grey'' ''localhost'',
                Test ''grey'' ''a@example.org'' ''test@localhost'', Sleep 5000,
                Test ''grey'' ''a@example.org'' ''test@localhost'', Release ''grey'']))"
    by (simp add: run_defs test_defs testServer.simps)
  from serverAcceptsEmail_first_verdict [OF h1 h2 h3 h4 h5 h6] h1 h5 h6
  show ?thesis by simp
qed

text \<open>
  C4. When the attempts of the servers \<open>pre\<close> all throw and the attempt of the next server
  throws \<open>err\<close>, the loop goes on to the remaining servers with \<open>err\<close> as its last error,
  whatever was recorded before. If no server remains, \<open>serverAcceptsEmail\<close> throws exactly
  \<open>err\<close>, the error of the last server's attempt, after having contacted every server in
  order.
\<close>

theorem serverAcceptsEmail_last_error:
  assumes "getMailServers e (hostname_of email) st = (Inr servers, st1)"
    and "servers = pre @ server # post"
    and "sd = js_or (senderDomain opts) (os_hostname e (fst st1))"
    and "sa = js_or (senderAddress opts) (''test@'' @ sd)"
    and "all_fail e email sd sa pre st1"
    and "attempt e email sd sa server (after_attempts e email sd sa pre st1) = (Inl err, st')"
  shows "try_servers e email sd sa servers None st1 =
           try_servers e email sd sa post (Some err) st'
       \<and> (post = [] \<longrightarrow>
            serverAcceptsEmail e email opts st = (Inl (Some err), st')
          \<and> contacted (snd st') = contacted (snd st) @ servers)"
proof (intro conjI impI)
  show loop: "try_servers e email sd sa servers None st1 =
                try_servers e email sd sa post (Some err) st'"
    using try_servers_prefix [OF assms(5,6), of post None] assms(2) by simp
  have "servers \<noteq> []" using assms(2) by simp
  then have top: "serverAcceptsEmail e email opts st =
                    try_servers e email sd sa servers None st1"
    using serverAcceptsEmail_loop [OF assms(1)] assms(3,4) by simp
  assume last: "post = []"
  show "serverAcceptsEmail e email opts st = (Inl (Some err), st')"
    using top loop last by simp
  have "contacted (snd st') =
          contacted (snd (after_attempts e email sd sa pre st1)) @ [server]"
    using attempt_contacted [of e email sd sa server "after_attempts e email sd sa pre st1"]
          assms(6) by simp
  also have "\<dots> = contacted (snd st1) @ pre @ [server]"
    by (simp add: after_attempts_contacted)
  finally show "contacted (snd st') = contacted (snd st) @ servers"
    using getMailServers_contacted [OF assms(1)] assms(2) last by simp
qed

theorem serverAcceptsEmail_last_error_witness:
  "getMailServers test_env (hostname_of ''a@dead.example'') (0, []) =
     (Inr [''stubborn'', ''down''], (0, [ResolveMx (Some ''dead.example'')]))
   \<and> all_fail test_env ''a@dead.example'' ''localhost'' ''test@localhost'' [''stubborn'']
       (0, [ResolveMx (Some ''dead.example'')])
   \<and> fst (attempt test_env ''a@dead.example'' ''localhost'' ''test@localhost'' ''stubborn''
            (0, [ResolveMx (Some ''dead.example'')])) =
       Inl (JsError None ''Server applied greylisting'')
   \<and> attempt test_env ''a@dead.example'' ''localhost'' ''test@localhost'' ''down''
       (after_attempts test_env ''a@dead.example'' ''localhost'' ''test@localhost''
          [''stubborn''] (0, [ResolveMx (Some ''dead.example'')])) =
       (Inl (JsError (Some ''ECONNREFUSED'') ''connect ECONNREFUSED''),
        (300000, [ResolveMx (Some ''dead.example''), WithClient ''stubborn'' ''localhost'',
                  Test ''stubborn'' ''a@dead.example'' ''test@localhost'', Sleep 300000,
                  Test ''stubborn'' ''a@dead.example'' ''test@localhost'',
                  Release ''stubborn'', WithClient ''down'' ''localhost'']))
   \<and> serverAcceptsEmail test_env ''a@dead.example'' no_options (0, []) =
       (Inl (Some (JsError (Some ''ECONNREFUSED'') ''connect ECONNREFUSED'')),
        (300000, [ResolveMx (Some ''dead.example''), WithClient ''stubborn'' ''localhost'',
                  Test ''stubborn'' ''a@dead.example'' ''test@localhost'', Sleep 300000,
                  Test ''stubborn'' ''a@dead.example'' ''test@localhost'',
                  Release ''stubborn'', WithClient ''down'' ''localhost'']))"
proof -
  have h1: "getMailServers test_env (hostname_of ''a@dead.example'') (0, []) =
     (Inr [''stubborn'', ''down''], (0, [ResolveMx (Some ''dead.example'')]))"
    by (simp add: run_defs test_defs)
  have h2: "[''stubborn'', ''down''] = [''stubborn''] @ ''down'' # []"
    by simp
  have h3: "''localhost'' =
              js_or (senderDomain no_options)
                (os_hostname test_env (fst (0::nat, [ResolveMx (Some ''dead.example'') :: string event])))"
    by (simp add: js_or_def test_defs)
  have h4: "''test@localhost'' = js_or (senderAddress no_options) (''test@'' @ ''localhost'')"
    by (simp add: js_or_def test_defs)
  have h5: "all_fail test_env ''a@dead.example'' ''localhost'' ''test@localhost'' [''stubborn'']
       (0, [ResolveMx (Some ''dead.example'')])"
    by (simp add: run_defs test_defs testServer.simps)
  have h5': "fst (attempt test_env ''a@dead.example'' ''localhost'' ''test@localhost'' ''stubborn''
            (0, [ResolveMx (Some ''dead.example'')])) =
       Inl (JsError None ''Server applied greylisting'')"
    by (simp add: run_defs test_defs testServer.simps)
  have h6: "attempt test_env ''a@dead.example'' ''localhost'' ''test@localhost'' ''down''
       (after_attempts test_env ''a@dead.example'' ''localhost'' ''test@localhost''
          [''stubborn''] (0, [ResolveMx (Some ''dead.example'')])) =
       (Inl (JsError (Some ''ECONNREFUSED'') ''connect ECONNREFUSED''),
        (300000, [ResolveMx (Some ''dead.example''), WithClient ''stubborn'' ''localhost'',
                  Test ''stubborn'' ''a@dead.example'' ''test@localhost'', Sleep 300000,
                  Test ''stubborn'' ''a@dead.example'' ''test@localhost'',
                  Release ''stubborn'', WithClient ''down'' ''localhost'']))"
    by (simp add: run_defs test_defs testServer.simps)
  from serverAcceptsEmail_last_error [OF h1 h2 h3 h4 h5 h6] h1 h5 h5' h6
  show ?thesis by simp
qed

section \<open>Domains without exchangers, and lookup failures\<close>

text \<open>
  C5. When the lookup for the domain of the address returns no records, or fails with
  the code \<^verbatim>\<open>ENOTFOUND\<close> or \<^verbatim>\<open>ENODATA\<close>, \<open>serverAcceptsEmail\<close> returns \<open>false\<close> and
  does not throw; the lookup is the only call it makes, so no server is contacted.
\<close>

theorem serverAcceptsEmail_no_exchangers:
  assumes "resolveMx e (hostname_of email) w = (r, w1)"
    and "r = Inr [] \<or>
         (\<exists>err. r = Inl err \<and> (code err = Some ''ENOTFOUND'' \<or> code err = Some ''ENODATA''))"
  shows "serverAcceptsEmail e email opts (w, tr) =
           (Inr False, (w1, tr @ [ResolveMx (hostname_of email)]))
       \<and> contacted (tr @ [ResolveMx (hostname_of email)]) = contacted tr"
proof
  have "getMailServers e (hostname_of email) (w, tr) =
          (Inr [], (w1, tr @ [ResolveMx (hostname_of email)]))"
    using assms
    by (auto simp: getMailServers_def handleResolveMxErrors_def pCatchIf_def js_sort_def)
  then show "serverAcceptsEmail e email opts (w, tr) =
               (Inr False, (w1, tr @ [ResolveMx (hostname_of email)]))"
    by (simp add: serverAcceptsEmail_def getMailServersLimit_def)
  show "contacted (tr @ [ResolveMx (hostname_of email)]) = contacted tr"
    by (simp add: contacted_append)
qed

theorem serverAcceptsEmail_no_exchangers_witness:
  "resolveMx test_env (hostname_of ''a@nomail.example'') 0 =
     (Inl (JsError (Some ''ENOTFOUND'') ''queryMx ENOTFOUND nomail.example''), 0)
   \<and> code (JsError (Some ''ENOTFOUND'') ''queryMx ENOTFOUND nomail.example'') =
       Some ''ENOTFOUND''
   \<and> serverAcceptsEmail test_env ''a@nomail.example'' no_options (0, []) =
       (Inr False, (0, [ResolveMx (Some ''nomail.example'')]))"
proof -
  have h1: "resolveMx test_env (hostname_of ''a@nomail.example'') 0 =
     (Inl (JsError (Some ''ENOTFOUND'') ''queryMx ENOTFOUND nomail.example''), 0)"
    by (simp add: run_defs test_defs)
  have h2: "Inl (JsError (Some ''ENOTFOUND'') ''queryMx ENOTFOUND nomail.example'') =
              (Inr [] :: js_error + MxRecord list)
          \<or> (\<exists>err. Inl (JsError (Some ''ENOTFOUND'') ''queryMx ENOTFOUND nomail.example'') =
                     (Inl err :: js_error + MxRecord list)
                 \<and> (code err = Some ''ENOTFOUND'' \<or> code err = Some ''ENODATA''))"
    by simp
  have h3: "hostname_of ''a@nomail.example'' = Some ''nomail.example''"
    by (simp add: run_defs)
  from serverAcceptsEmail_no_exchangers [OF h1 h2, of no_options "[]"] h1 h3
  show ?thesis by simp
qed

text \<open>
  C6. When the lookup fails, \<open>getMailServers\<close> returns the empty list if the error's code
  is \<^verbatim>\<open>ENOTFOUND\<close> or \<^verbatim>\<open>ENODATA\<close>, and throws the same error for every other code or for
  none; in the second case \<open>serverAcceptsEmail\<close> throws that error too, having made no
  call but the lookup.
\<close>

theorem getMailServers_lookup_errors:
  assumes "resolveMx e hostname w = (Inl err, w1)"
  shows "getMailServers e hostname (w, tr) =
           (if code err = Some ''ENOTFOUND'' \<or> code err = Some ''ENODATA''
            then Inr [] else Inl err,
            (w1, tr @ [ResolveMx hostname]))
       \<and> (hostname = hostname_of email \<and>
          \<not> (code err = Some ''ENOTFOUND'' \<or> code err = Some ''ENODATA'') \<longrightarrow>
            serverAcceptsEmail e email opts (w, tr) =
              (Inl (Some err), (w1, tr @ [ResolveMx hostname])))"
proof (intro conjI impI)
  show g: "getMailServers e hostname (w, tr) =
           (if code err = Some ''ENOTFOUND'' \<or> code err = Some ''ENODATA''
            then Inr [] else Inl err,
            (w1, tr @ [ResolveMx hostname]))"
    using assms
    by (simp add: getMailServers_def handleResolveMxErrors_def pCatchIf_def js_sort_def)
  assume "hostname = hostname_of email \<and>
          \<not> (code err = Some ''ENOTFOUND'' \<or> code err = Some ''ENODATA'')"
  with g show "serverAcceptsEmail e email opts (w, tr) =
                 (Inl (Some err), (w1, tr @ [ResolveMx hostname]))"
    by (simp add: serverAcceptsEmail_def getMailServersLimit_def)
qed

theorem getMailServers_lookup_errors_witness:
  "resolveMx test_env (Some ''other.example'') 0 =
     (Inl (JsError (Some ''ESERVFAIL'') ''queryMx ESERVFAIL''), 0)
   \<and> Some ''other.example'' = hostname_of ''a@other.example''
   \<and> getMailServers test_env (Some ''other.example'') (0, []) =
       (Inl (JsError (Some ''ESERVFAIL'') ''queryMx ESERVFAIL''),
        (0, [ResolveMx (Some ''other.example'')]))
   \<and> serverAcceptsEmail test_env ''a@other.example'' no_options (0, []) =
       (Inl (Some (JsError (Some ''ESERVFAIL'') ''queryMx ESERVFAIL'')),
        (0, [ResolveMx (Some ''other.example'')]))"
proof -
  have h1: "resolveMx test_env (Some ''other.example'') 0 =
     (Inl (JsError (Some ''ESERVFAIL'') ''queryMx ESERVFAIL''), 0)"
    by (simp add: test_defs)
  have h2: "Some ''other.example'' = hostname_of ''a@other.example''"
    by (simp add: run_defs)
  from getMailServers_lookup_errors
         [OF h1, of "[]" "''a@other.example''" no_options] h1 h2
  show ?thesis by simp
qed

section \<open>The sender identity\<close>

text \<open>
  C8, as the code has it. With a non-empty server list, the request runs the loop with
  the sender domain \<open>sd\<close> and the sender address \<open>sa\<close>, where \<open>sd\<close> is the caller's
  \<open>senderDomain\<close> if it is present and not the empty string and the local host name
  otherwise, and \<open>sa\<close> is the caller's \<open>senderAddress\<close> if it is present and not the empty
  string and \<^verbatim>\<open>test@\<close> followed by \<open>sd\<close> otherwise. The first call after the lookup connects
  to the first server with \<open>sd\<close>, and every connection and every probe of the request
  carries \<open>sd\<close> and \<open>sa\<close>.
\<close>

theorem serverAcceptsEmail_sender_identity:
  assumes "getMailServers e (hostname_of email) (w, tr) = (Inr servers, (w1, tr1))"
    and "servers \<noteq> []"
    and "sd = (case senderDomain opts of
                 None \<Rightarrow> os_hostname e w1
               | Some d \<Rightarrow> if d = [] then os_hostname e w1 else d)"
    and "sa = (case senderAddress opts of
                 None \<Rightarrow> ''test@'' @ sd
               | Some a \<Rightarrow> if a = [] then ''test@'' @ sd else a)"
  shows "serverAcceptsEmail e email opts (w, tr) =
           try_servers e email sd sa servers None (w1, tr1)
       \<and> (\<exists>evs. snd (snd (serverAcceptsEmail e email opts (w, tr))) =
                  tr1 @ WithClient (hd servers) sd # evs
              \<and> uses_sender sd email sa evs)"
proof -
  have sd: "sd = js_or (senderDomain opts) (os_hostname e w1)"
    using assms(3) by (simp add: js_or_def split: option.splits)
  have sa: "sa = js_or (senderAddress opts) (''test@'' @ sd)"
    using assms(4) by (simp add: js_or_def split: option.splits)
  have top: "serverAcceptsEmail e email opts (w, tr) =
               try_servers e email sd sa servers None (w1, tr1)"
    using serverAcceptsEmail_loop [OF assms(1,2), of opts] sd sa by simp
  obtain r w' evs where run:
    "try_servers e email sd sa servers None (w1, tr1) = (r, (w', tr1 @ evs))"
    and ok: "uses_sender sd email sa evs"
    and first: "servers \<noteq> [] \<longrightarrow> (\<exists>evs'. evs = WithClient (hd servers) sd # evs')"
    using try_servers_events [of e email sd sa servers None w1 tr1] by blast
  from first assms(2) obtain evs' where evs: "evs = WithClient (hd servers) sd # evs'"
    by blast
  have "uses_sender sd email sa evs'"
    using ok evs by (simp add: uses_sender_def)
  with top run evs show ?thesis by simp
qed

theorem serverAcceptsEmail_sender_identity_witness:
  "getMailServers test_env (hostname_of ''a@example.org'') (0, []) =
     (Inr [''down'', ''grey'', ''mx2'', ''mx3''], (0, [ResolveMx (Some ''example.org'')]))
   \<and> serverAcceptsEmail test_env ''a@example.org''
       \<lparr>senderDomain = Some ''me.example'', senderAddress = None\<rparr> (0, []) =
       try_servers test_env ''a@example.org'' ''me.example'' ''test@me.example''
         [''down'', ''grey'', ''mx2'', ''mx3''] None (0, [ResolveMx (Some ''example.org'')])
   \<and> snd (snd (serverAcceptsEmail test_env ''a@example.org''
                  \<lparr>senderDomain = Some ''me.example'', senderAddress = None\<rparr> (0, []))) =
       [ResolveMx (Some ''example.org''), WithClient ''down'' ''me.example'',
        WithClient ''grey'' ''me.example'',
        Test ''grey'' ''a@example.org'' ''test@me.example'', Sleep 5000,
        Test ''grey'' ''a@example.org'' ''test@me.example'', Release ''grey'']"
proof -
  have h1: "getMailServers test_env (hostname_of ''a@example.org'') (0, []) =
     (Inr [''down'', ''grey'', ''mx2'', ''mx3''], (0, [ResolveMx (Some ''example.org'')]))"
    by (simp add: run_defs test_defs)
  have h2: "[''down'', ''grey'', ''mx2'', ''mx3''] \<noteq> []"
    by simp
  have h3: "''me.example'' =
              (case senderDomain \<lparr>senderDomain = Some ''me.example'', senderAddress = None\<rparr> of
                 None \<Rightarrow> os_hostname test_env 0
               | Some d \<Rightarrow> if d = [] then os_hostname test_env 0 else d)"
    by simp
  have h4: "''test@me.example'' =
              (case senderAddress \<lparr>senderDomain = Some ''me.example'', senderAddress = None\<rparr> of
                 None \<Rightarrow> ''test@'' @ ''me.example''
               | Some a \<Rightarrow> if a = [] then ''test@'' @ ''me.example'' else a)"
    by simp
  have h5: "snd (snd (serverAcceptsEmail test_env ''a@example.org''
                  \<lparr>senderDomain = Some ''me.example'', senderAddress = None\<rparr> (0, []))) =
       [ResolveMx (Some ''example.org''), WithClient ''down'' ''me.example'',
        WithClient ''grey'' ''me.example'',
        Test ''grey'' ''a@example.org'' ''test@me.example'', Sleep 5000,
        Test ''grey'' ''a@example.org'' ''test@me.example'', Release ''grey'']"
    by (simp add: run_defs test_defs testServer.simps)
  from serverAcceptsEmail_sender_identity [OF h1 h2 h3 h4] h1 h5
  show ?thesis by simp
qed

text \<open>
  C8, as the claim states it, fails for an empty string: a caller who supplies the empty
  string as \<open>senderDomain\<close> and as \<open>senderAddress\<close> does not have them used unchanged. The
  connections claim the local host name and the probes the address derived from it.
\<close>

theorem empty_sender_options_counterexample:
  "senderDomain \<lparr>senderDomain = Some '''', senderAddress = Some ''''\<rparr> = Some ''''
   \<and> senderAddress \<lparr>senderDomain = Some '''', senderAddress = Some ''''\<rparr> = Some ''''
   \<and> snd (snd (serverAcceptsEmail test_env ''a@example.org''
                  \<lparr>senderDomain = Some '''', senderAddress = Some ''''\<rparr> (0, []))) =
       [ResolveMx (Some ''example.org''), WithClient ''down'' ''localhost'',
        WithClient ''grey'' ''localhost'',
        Test ''grey'' ''a@example.org'' ''test@localhost'', Sleep 5000,
        Test ''grey'' ''a@example.org'' ''test@localhost'', Release ''grey'']
   \<and> \<not> uses_sender '''' ''a@example.org'' ''''
         (snd (snd (serverAcceptsEmail test_env ''a@example.org''
                      \<lparr>senderDomain = Some '''', senderAddress = Some ''''\<rparr> (0, []))))"
  by (simp add: run_defs test_defs testServer.simps uses_sender_def)

section \<open>The domain of the address\<close>

lemma split_on_nonempty: "split_on sep s \<noteq> []"
  by (induction s) (auto split: list.splits)

lemma hd_split_on: "hd (split_on sep s) = takeWhile (\<lambda>c. c \<noteq> sep) s"
  by (induction s) (auto split: list.splits simp: split_on_nonempty)

lemma tl_split_on:
  "tl (split_on sep s) =
     (if sep \<in> set s then split_on sep (tl (dropWhile (\<lambda>c. c \<noteq> sep) s)) else [])"
  by (induction s) (auto split: list.splits simp: split_on_nonempty)

lemma hostname_of_segment:
  "hostname_of email =
     (if CHR ''@'' \<in> set email
      then Some (takeWhile (\<lambda>c. c \<noteq> CHR ''@'') (tl (dropWhile (\<lambda>c. c \<noteq> CHR ''@'') email)))
      else None)"
proof -
  obtain s ss where s: "split_on CHR ''@'' email = s # ss"
    using split_on_nonempty [of "CHR ''@''" email] by (cases "split_on CHR ''@'' email") auto
  have ss: "ss = (if CHR ''@'' \<in> set email
                  then split_on CHR ''@'' (tl (dropWhile (\<lambda>c. c \<noteq> CHR ''@'') email)) else [])"
    using tl_split_on [of "CHR ''@''" email] s by simp
  show ?thesis
  proof (cases "CHR ''@'' \<in> set email")
    case False
    then show ?thesis using s ss by (simp add: hostname_of_def js_index_def)
  next
    case True
    let ?r = "tl (dropWhile (\<lambda>c. c \<noteq> CHR ''@'') email)"
    obtain t ts where t: "split_on CHR ''@'' ?r = t # ts"
      using split_on_nonempty [of "CHR ''@''" ?r] by (cases "split_on CHR ''@'' ?r") auto
    have "t = takeWhile (\<lambda>c. c \<noteq> CHR ''@'') ?r"
      using hd_split_on [of "CHR ''@''" ?r] t by simp
    then show ?thesis using True s ss t by (simp add: hostname_of_def js_index_def)
  qed
qed

lemma serverAcceptsEmail_first_event:
  "\<exists>evs. snd (snd (serverAcceptsEmail e email opts (w, tr))) =
           tr @ ResolveMx (hostname_of email) # evs"
proof -
  obtain r st1 where Pair: "getMailServers e (hostname_of email) (w, tr) = (r, st1)"
    by (rule prod.exhaust)
  obtain w1 tr1 where st1: "st1 = (w1, tr1)" by (cases st1)
  have tr1: "tr1 = tr @ [ResolveMx (hostname_of email)]"
    using getMailServers_trace [OF Pair] st1 by simp
  show ?thesis
  proof (cases r)
    case (Inl err)
    with Pair st1 tr1 show ?thesis
      by (simp add: serverAcceptsEmail_def getMailServersLimit_def)
  next
    case (Inr servers)
    show ?thesis
    proof (cases "servers = []")
      case True
      with Pair Inr st1 tr1 show ?thesis
        by (simp add: serverAcceptsEmail_def getMailServersLimit_def)
    next
      case False
      let ?sd = "js_or (senderDomain opts) (os_hostname e (fst st1))"
      let ?sa = "js_or (senderAddress opts) (''test@'' @ ?sd)"
      have top: "serverAcceptsEmail e email opts (w, tr) =
                   try_servers e email ?sd ?sa servers None (w1, tr1)"
        using serverAcceptsEmail_loop [of e email "(w, tr)" servers st1 opts] Pair Inr False st1
        by simp
      obtain r' w' evs where
        "try_servers e email ?sd ?sa servers None (w1, tr1) = (r', (w', tr1 @ evs))"
        using try_servers_events [of e email ?sd ?sa servers None w1 tr1] by blast
      with top tr1 show ?thesis by simp
    qed
  qed
qed

text \<open>
  C10. The domain that \<open>serverAcceptsEmail\<close> looks up is the second segment of the address
  split at every \<^verbatim>\<open>@\<close>: the characters after the first \<^verbatim>\<open>@\<close> up to the second \<^verbatim>\<open>@\<close> or the
  end, so \<^verbatim>\<open>b\<close> for \<^verbatim>\<open>a@b@c\<close>, and undefined when the address has no \<^verbatim>\<open>@\<close>. The first call
  of every request is the lookup of exactly this value. For an address without \<^verbatim>\<open>@\<close>
  there is no check of the address: when the resolver rejects the undefined name with an
  error whose code is neither \<^verbatim>\<open>ENOTFOUND\<close> nor \<^verbatim>\<open>ENODATA\<close>, the request throws that error
  of the resolver's, after the lookup and nothing else.
\<close>

theorem serverAcceptsEmail_domain:
  "hostname_of email =
     (if CHR ''@'' \<in> set email
      then Some (takeWhile (\<lambda>c. c \<noteq> CHR ''@'') (tl (dropWhile (\<lambda>c. c \<noteq> CHR ''@'') email)))
      else None)
   \<and> hostname_of ''a@b@c'' = Some ''b''
   \<and> (\<exists>evs. snd (snd (serverAcceptsEmail e email opts (w, tr))) =
              tr @ ResolveMx (hostname_of email) # evs)
   \<and> (CHR ''@'' \<notin> set email \<and> resolveMx e None w = (Inl err, w1) \<and>
      \<not> (code err = Some ''ENOTFOUND'' \<or> code err = Some ''ENODATA'') \<longrightarrow>
        serverAcceptsEmail e email opts (w, tr) = (Inl (Some err), (w1, tr @ [ResolveMx None])))"
proof (intro conjI impI)
  show "hostname_of email =
     (if CHR ''@'' \<in> set email
      then Some (takeWhile (\<lambda>c. c \<noteq> CHR ''@'') (tl (dropWhile (\<lambda>c. c \<noteq> CHR ''@'') email)))
      else None)"
    by (rule hostname_of_segment)
  show "hostname_of ''a@b@c'' = Some ''b''"
    by (simp add: hostname_of_def js_index_def)
  show "\<exists>evs. snd (snd (serverAcceptsEmail e email opts (w, tr))) =
              tr @ ResolveMx (hostname_of email) # evs"
    by (rule serverAcceptsEmail_first_event)
next
  assume h: "CHR ''@'' \<notin> set email \<and> resolveMx e None w = (Inl err, w1) \<and>
      \<not> (code err = Some ''ENOTFOUND'' \<or> code err = Some ''ENODATA'')"
  then have "hostname_of email = None"
    by (simp add: hostname_of_segment)
  with h show "serverAcceptsEmail e email opts (w, tr) =
                 (Inl (Some err), (w1, tr @ [ResolveMx None]))"
    by (simp add: serverAcceptsEmail_def getMailServersLimit_def getMailServers_def
                  handleResolveMxErrors_def pCatchIf_def)
qed

theorem serverAcceptsEmail_domain_witness:
  "CHR ''@'' \<notin> set ''postmaster''
   \<and> resolveMx test_env None 0 =
       (Inl (JsError (Some ''ERR_INVALID_ARG_TYPE'')
               ''The name argument must be of type string''), 0)
   \<and> hostname_of ''postmaster'' = None
   \<and> serverAcceptsEmail test_env ''postmaster'' no_options (0, []) =
       (Inl (Some (JsError (Some ''ERR_INVALID_ARG_TYPE'')
                     ''The name argument must be of type string'')),
        (0, [ResolveMx None]))"
proof -
  have h1: "CHR ''@'' \<notin> set ''postmaster''"
    by simp
  have h2: "resolveMx test_env None 0 =
       (Inl (JsError (Some ''ERR_INVALID_ARG_TYPE'')
               ''The name argument must be of type string''), 0)"
    by (simp add: test_defs)
  have h3: "\<not> (code (JsError (Some ''ERR_INVALID_ARG_TYPE'')
                      ''The name argument must be of type string'') = Some ''ENOTFOUND''
              \<or> code (JsError (Some ''ERR_INVALID_ARG_TYPE'')
                      ''The name argument must be of type string'') = Some ''ENODATA'')"
    by simp
  from serverAcceptsEmail_domain
         [of "''postmaster''" test_env no_options 0 "[]"
             "JsError (Some ''ERR_INVALID_ARG_TYPE'') ''The name argument must be of type string''" 0]
       h1 h2 h3
  show ?thesis by simp
qed

end
